theory Spec2Isabelle
  imports Complex_Main "HOL-Library.Multiset"
begin

section \<open>Domain model\<close>

text \<open>
  The element and design types of \<^verbatim>\<open>types/design.ts\<close>. A \<^verbatim>\<open>DesignElement\<close> is a
  JavaScript object of a union type discriminated by its \<^verbatim>\<open>type\<close> tag: the properties
  of \<^verbatim>\<open>BaseElement\<close> are always there, the type-specific ones (and \<^verbatim>\<open>locked\<close>) are
  present or absent, which is \<open>Some\<close> or \<open>None\<close> here. Numbers are carried around and
  never computed with; they are reals. Field names that collide with HOL constants,
  with Isar keywords or with each other carry a suffix (\<open>id_el\<close> for \<^verbatim>\<open>id\<close>).
\<close>

datatype element_type = Text | Image | Rect | Circle

datatype font_weight = Normal | Bold

datatype text_align = AlignLeft | AlignCenter | AlignRight

datatype image_fit = Contain | Cover

record design_element =
  id_el :: string
  type_el :: element_type
  x_el :: real
  y_el :: real
  width :: real
  height :: real
  rotation :: real
  zIndex :: real
  opacity :: real
  locked :: "bool option"
  text_el :: "string option"
  fontFamily :: "string option"
  fontSize :: "real option"
  fontWeight :: "font_weight option"
  fill :: "string option"
  align :: "text_align option"
  src :: "string option"
  fit :: "image_fit option"
  stroke :: "string option"
  strokeWidth :: "real option"
  radius :: "real option"

text \<open>
  \<^verbatim>\<open>Partial<DesignElement>\<close>: every property may be absent.
\<close>

record element_patch =
  p_id :: "string option"
  p_type :: "element_type option"
  p_x :: "real option"
  p_y :: "real option"
  p_width :: "real option"
  p_height :: "real option"
  p_rotation :: "real option"
  p_zIndex :: "real option"
  p_opacity :: "real option"
  p_locked :: "bool option"
  p_text :: "string option"
  p_fontFamily :: "string option"
  p_fontSize :: "real option"
  p_fontWeight :: "font_weight option"
  p_fill :: "string option"
  p_align :: "text_align option"
  p_src :: "string option"
  p_fit :: "image_fit option"
  p_stroke :: "string option"
  p_strokeWidth :: "real option"
  p_radius :: "real option"

text \<open>
  The object spread \<^verbatim>\<open>{ ...existing, ...patch }\<close>: a property of the patch, when
  present, replaces the one of the existing element.
\<close>

definition over :: "'a option \<Rightarrow> 'a \<Rightarrow> 'a" where
  "over p e = (case p of None \<Rightarrow> e | Some v \<Rightarrow> v)"

definition over_opt :: "'a option \<Rightarrow> 'a option \<Rightarrow> 'a option" where
  "over_opt p e = (case p of None \<Rightarrow> e | Some v \<Rightarrow> Some v)"

definition spread :: "design_element \<Rightarrow> element_patch \<Rightarrow> design_element" where
  "spread existing patch =
     \<lparr> id_el = over (p_id patch) (id_el existing),
       type_el = over (p_type patch) (type_el existing),
       x_el = over (p_x patch) (x_el existing),
       y_el = over (p_y patch) (y_el existing),
       width = over (p_width patch) (width existing),
       height = over (p_height patch) (height existing),
       rotation = over (p_rotation patch) (rotation existing),
       zIndex = over (p_zIndex patch) (zIndex existing),
       opacity = over (p_opacity patch) (opacity existing),
       locked = over_opt (p_locked patch) (locked existing),
       text_el = over_opt (p_text patch) (text_el existing),
       fontFamily = over_opt (p_fontFamily patch) (fontFamily existing),
       fontSize = over_opt (p_fontSize patch) (fontSize existing),
       fontWeight = over_opt (p_fontWeight patch) (fontWeight existing),
       fill = over_opt (p_fill patch) (fill existing),
       align = over_opt (p_align patch) (align existing),
       src = over_opt (p_src patch) (src existing),
       fit = over_opt (p_fit patch) (fit existing),
       stroke = over_opt (p_stroke patch) (stroke existing),
       strokeWidth = over_opt (p_strokeWidth patch) (strokeWidth existing),
       radius = over_opt (p_radius patch) (radius existing) \<rparr>"

text \<open>
  The same spread over an object that has a patch's properties only.
\<close>

definition overlay :: "element_patch \<Rightarrow> element_patch \<Rightarrow> element_patch" where
  "overlay existing patch =
     \<lparr> p_id = over_opt (p_id patch) (p_id existing),
       p_type = over_opt (p_type patch) (p_type existing),
       p_x = over_opt (p_x patch) (p_x existing),
       p_y = over_opt (p_y patch) (p_y existing),
       p_width = over_opt (p_width patch) (p_width existing),
       p_height = over_opt (p_height patch) (p_height existing),
       p_rotation = over_opt (p_rotation patch) (p_rotation existing),
       p_zIndex = over_opt (p_zIndex patch) (p_zIndex existing),
       p_opacity = over_opt (p_opacity patch) (p_opacity existing),
       p_locked = over_opt (p_locked patch) (p_locked existing),
       p_text = over_opt (p_text patch) (p_text existing),
       p_fontFamily = over_opt (p_fontFamily patch) (p_fontFamily existing),
       p_fontSize = over_opt (p_fontSize patch) (p_fontSize existing),
       p_fontWeight = over_opt (p_fontWeight patch) (p_fontWeight existing),
       p_fill = over_opt (p_fill patch) (p_fill existing),
       p_align = over_opt (p_align patch) (p_align existing),
       p_src = over_opt (p_src patch) (p_src existing),
       p_fit = over_opt (p_fit patch) (p_fit existing),
       p_stroke = over_opt (p_stroke patch) (p_stroke existing),
       p_strokeWidth = over_opt (p_strokeWidth patch) (p_strokeWidth existing),
       p_radius = over_opt (p_radius patch) (p_radius existing) \<rparr>"

text \<open>
  What \<^verbatim>\<open>elementsById\<close> holds under a key at run time: an element, or an object
  that has the properties of patches only and so need not be a \<^verbatim>\<open>DesignElement\<close>. The
  second comes from \<^verbatim>\<open>updateElement\<close> alone, which spreads a patch over whatever it
  read under the id.
\<close>

datatype stored = Element design_element | Stray element_patch

fun spread_stored :: "stored \<Rightarrow> element_patch \<Rightarrow> stored" where
  "spread_stored (Element existing) patch = Element (spread existing patch)"
| "spread_stored (Stray existing) patch = Stray (overlay existing patch)"

fun stored_x :: "stored \<Rightarrow> real option" where
  "stored_x (Element el) = Some (x_el el)"
| "stored_x (Stray obj) = p_x obj"

section \<open>Plain objects as dictionaries\<close>

text \<open>
  \<^verbatim>\<open>elementsById\<close> and \<^verbatim>\<open>collaborators\<close> are plain objects used as dictionaries, and
  inside a reducer they are drafts. The map of a dictionary holds its own keys. A read
  \<^verbatim>\<open>obj[key]\<close> of a key that is not an own key goes on to \<^verbatim>\<open>Object.prototype\<close>,
  whose members are the names below (ECMAScript, with its Annex B); each of them is a
  function or an object, so the value read is truthy, and it has no enumerable property
  of its own, so a spread of it copies nothing.
\<close>

definition object_prototype_keys :: "string list" where
  "object_prototype_keys =
     [''constructor'', ''hasOwnProperty'', ''isPrototypeOf'', ''propertyIsEnumerable'',
      ''toLocaleString'', ''toString'', ''valueOf'', ''__proto__'', ''__defineGetter__'',
      ''__defineSetter__'', ''__lookupGetter__'', ''__lookupSetter__'']"

datatype 'v js_read = Own 'v | Inherited | Undefined

definition read :: "(string \<rightharpoonup> 'v) \<Rightarrow> string \<Rightarrow> 'v js_read" where
  "read obj key =
     (case obj key of
        Some v \<Rightarrow> Own v
      | None \<Rightarrow> if key \<in> set object_prototype_keys then Inherited else Undefined)"

text \<open>
  An assignment \<^verbatim>\<open>obj[key] = value\<close> makes \<^verbatim>\<open>key\<close> an own key, but for
  \<^verbatim>\<open>__proto__\<close>: that assignment reaches the setter of \<^verbatim>\<open>Object.prototype\<close>, which on
  a draft throws. A reducer that throws leaves the state of the store as it was.
  \<^verbatim>\<open>delete obj[key]\<close> removes an own key, does nothing otherwise and never throws.
\<close>

datatype error = SetPrototypeOfDraft

definition assign :: "(string \<rightharpoonup> 'v) \<Rightarrow> string \<Rightarrow> 'v \<Rightarrow> error + (string \<rightharpoonup> 'v)" where
  "assign obj key v =
     (if key = ''__proto__'' then Inl SetPrototypeOfDraft else Inr (obj(key \<mapsto> v)))"

section \<open>Design slice\<close>

text \<open>
  The design slice of the system design document (\<^verbatim>\<open>features/design/designSlice.ts\<close>):
  the elements of the open design, normalised by id, and their layer order.
  \<^verbatim>\<open>elementsById\<close> is a dictionary, \<^verbatim>\<open>layerOrder\<close> an array of ids. A reducer
  mutates the draft it is given; here it returns the new state, or the error it
  throws.
\<close>

record design_state =
  designId :: "string option"
  name :: string
  width_s :: real
  height_s :: real
  elementsById :: "string \<rightharpoonup> stored"
  layerOrder :: "string list"
  selectedElementId :: "string option"
  dirty :: bool

definition initialState_design :: design_state where
  "initialState_design =
     \<lparr> designId = None, name = [], width_s = 1080, height_s = 1080,
       elementsById = Map.empty, layerOrder = [],
       selectedElementId = None, dirty = False \<rparr>"

definition addElement :: "design_state \<Rightarrow> design_element \<Rightarrow> error + design_state" where
  "addElement state el =
     (case assign (elementsById state) (id_el el) (Element el) of
        Inl e \<Rightarrow> Inl e
      | Inr m \<Rightarrow>
          Inr (state\<lparr> elementsById := m,
                      layerOrder := layerOrder state @ [id_el el],
                      dirty := True \<rparr>))"

text \<open>
  \<^verbatim>\<open>existing\<close> is what \<^verbatim>\<open>state.elementsById[id]\<close> reads: \<^verbatim>\<open>undefined\<close>, and the
  reducer returns; the object under an own key; or a member of \<^verbatim>\<open>Object.prototype\<close>,
  which passes \<^verbatim>\<open>if (!existing) return\<close> and adds nothing to the spread, so that the
  properties of the patch are what is assigned.
\<close>

definition updateElement :: "design_state \<Rightarrow> string \<Rightarrow> element_patch \<Rightarrow> error + design_state" where
  "updateElement state eid patch =
     (case read (elementsById state) eid of
        Undefined \<Rightarrow> Inr state
      | Own existing \<Rightarrow>
          (case assign (elementsById state) eid (spread_stored existing patch) of
             Inl e \<Rightarrow> Inl e
           | Inr m \<Rightarrow> Inr (state\<lparr> elementsById := m, dirty := True \<rparr>))
      | Inherited \<Rightarrow>
          (case assign (elementsById state) eid (Stray patch) of
             Inl e \<Rightarrow> Inl e
           | Inr m \<Rightarrow> Inr (state\<lparr> elementsById := m, dirty := True \<rparr>)))"

definition deleteElement :: "design_state \<Rightarrow> string \<Rightarrow> design_state" where
  "deleteElement state eid =
     state\<lparr> elementsById := (elementsById state)(eid := None),
            layerOrder := filter (\<lambda>e. e \<noteq> eid) (layerOrder state),
            selectedElementId :=
              (if selectedElementId state = Some eid then None else selectedElementId state),
            dirty := True \<rparr>"

definition reorderLayers :: "design_state \<Rightarrow> string list \<Rightarrow> design_state" where
  "reorderLayers state newOrder = state\<lparr> layerOrder := newOrder, dirty := True \<rparr>"

definition setSelectedElement :: "design_state \<Rightarrow> string option \<Rightarrow> design_state" where
  "setSelectedElement state payload = state\<lparr> selectedElementId := payload \<rparr>"

definition setName :: "design_state \<Rightarrow> string \<Rightarrow> design_state" where
  "setName state payload = state\<lparr> name := payload, dirty := True \<rparr>"

text \<open>
  The actions of the slice, and the slice reducer that \<^verbatim>\<open>createSlice\<close> builds.
  \<^verbatim>\<open>loadDesign\<close>, which replaces the whole design by a fetched one, is left out.
\<close>

datatype design_action =
    AddElement design_element
  | UpdateElement string element_patch
  | DeleteElement string
  | ReorderLayers "string list"
  | SetSelectedElement "string option"
  | SetName string

fun design_reduce :: "design_state \<Rightarrow> design_action \<Rightarrow> error + design_state" where
  "design_reduce state (AddElement el) = addElement state el"
| "design_reduce state (UpdateElement eid patch) = updateElement state eid patch"
| "design_reduce state (DeleteElement eid) = Inr (deleteElement state eid)"
| "design_reduce state (ReorderLayers newOrder) = Inr (reorderLayers state newOrder)"
| "design_reduce state (SetSelectedElement payload) = Inr (setSelectedElement state payload)"
| "design_reduce state (SetName payload) = Inr (setName state payload)"

text \<open>
  The state of a slice after an action was dispatched: the one the reducer returns,
  or the one before when the reducer throws.
\<close>

definition settle :: "'s \<Rightarrow> error + 's \<Rightarrow> 's" where
  "settle state result = (case result of Inl e \<Rightarrow> state | Inr next \<Rightarrow> next)"

definition design_step :: "design_state \<Rightarrow> design_action \<Rightarrow> design_state" where
  "design_step state a = settle state (design_reduce state a)"

text \<open>
  The element/order invariant of the data model: the ids of the layer order are
  pairwise distinct and are exactly the keys of the element map.
\<close>

definition store_inv :: "design_state \<Rightarrow> bool" where
  "store_inv state \<longleftrightarrow>
     distinct (layerOrder state) \<and> set (layerOrder state) = dom (elementsById state)"

text \<open>
  The actions that keep the invariant: an element is added under a fresh id, a reorder
  is a permutation of the current order, and an update does not read a member of \<^verbatim>\<open>Object.prototype\<close> for its
  element, unless under the id \<^verbatim>\<open>__proto__\<close>, where it throws. The reducers check none
  of this.
\<close>

fun guarded :: "design_state \<Rightarrow> design_action \<Rightarrow> bool" where
  "guarded state (AddElement el) = (elementsById state (id_el el) = None)"
| "guarded state (UpdateElement eid patch) =
     (read (elementsById state) eid \<noteq> Inherited \<or> eid = ''__proto__'')"
| "guarded state (ReorderLayers newOrder) = (mset newOrder = mset (layerOrder state))"
| "guarded state _ = True"

fun all_guarded :: "design_state \<Rightarrow> design_action list \<Rightarrow> bool" where
  "all_guarded state [] = True"
| "all_guarded state (a # as) = (guarded state a \<and> all_guarded (design_step state a) as)"

section \<open>The design list slice\<close>

text \<open>
  The slice of \<^verbatim>\<open>entities/design/model/slice.ts\<close>: the designs the client holds,
  each with its elements as an array. The clock read by \<^verbatim>\<open>new Date().toISOString()\<close>
  is the argument \<open>now\<close>.
\<close>

record design_doc =
  id_d :: string
  name_d :: string
  width_d :: real
  height_d :: real
  elements :: "design_element list"
  createdAt :: string
  updatedAt :: string
  thumbnailUrl :: "string option"

record designs_state =
  items :: "design_doc list"
  activeDesignId :: "string option"

text \<open>The seed design and the initial state of the slice.\<close>

definition seedDesign :: "string \<Rightarrow> design_doc" where
  "seedDesign now =
     \<lparr> id_d = ''seed-design'', name_d = ''Marketing Launch'', width_d = 1080,
       height_d = 1080,
       elements =
         [\<lparr> id_el = ''headline'', type_el = Text, x_el = 120, y_el = 120, width = 600,
            height = 120, rotation = 0, zIndex = 2, opacity = 1, locked = None,
            text_el = Some ''Design Collaboration Demo'', fontFamily = Some ''Inter'',
            fontSize = Some 48, fontWeight = Some Bold, fill = Some ''#f8fafc'',
            align = Some AlignLeft, src = None, fit = None, stroke = None,
            strokeWidth = None, radius = None \<rparr>,
          \<lparr> id_el = ''cta'', type_el = Rect, x_el = 120, y_el = 360, width = 320,
            height = 96, rotation = 0, zIndex = 1, opacity = 1, locked = None,
            text_el = None, fontFamily = None, fontSize = None, fontWeight = None,
            fill = Some ''#2563eb'', align = None, src = None, fit = None,
            stroke = Some ''#60a5fa'', strokeWidth = Some 2, radius = Some 20 \<rparr>,
          \<lparr> id_el = ''accent-circle'', type_el = Circle, x_el = 720, y_el = 540,
            width = 320, height = 320, rotation = 0, zIndex = 0, opacity = 1 / 4,
            locked = None, text_el = None, fontFamily = None, fontSize = None,
            fontWeight = None, fill = Some ''#a855f7'', align = None, src = None,
            fit = None, stroke = Some ''#f472b6'', strokeWidth = Some 6,
            radius = Some 160 \<rparr>],
       createdAt = now, updatedAt = now, thumbnailUrl = None \<rparr>"

definition initialState_designs :: "string \<Rightarrow> designs_state" where
  "initialState_designs now =
     \<lparr> items = [seedDesign now], activeDesignId = Some (id_d (seedDesign now)) \<rparr>"

text \<open>\<^verbatim>\<open>Array.prototype.findIndex\<close>; \<open>None\<close> is its \<open>-1\<close>.\<close>

fun findIndex :: "('a \<Rightarrow> bool) \<Rightarrow> 'a list \<Rightarrow> nat option" where
  "findIndex P [] = None"
| "findIndex P (x # xs) = (if P x then Some 0 else map_option Suc (findIndex P xs))"

definition setActiveDesignId :: "designs_state \<Rightarrow> string option \<Rightarrow> designs_state" where
  "setActiveDesignId state payload = state\<lparr> activeDesignId := payload \<rparr>"

definition upsertDesign :: "designs_state \<Rightarrow> design_doc \<Rightarrow> designs_state" where
  "upsertDesign state payload =
     (case findIndex (\<lambda>d. id_d d = id_d payload) (items state) of
        Some existingIndex \<Rightarrow> state\<lparr> items := (items state)[existingIndex := payload] \<rparr>
      | None \<Rightarrow> state\<lparr> items := items state @ [payload] \<rparr>)"

text \<open>
  \<^verbatim>\<open>updateElement\<close> of this slice takes a whole element. \<^verbatim>\<open>find\<close> gives the first
  design of that id, which is then changed in place: the design at the index
  \<^verbatim>\<open>findIndex\<close> gives.
\<close>

definition updateElement_items ::
  "designs_state \<Rightarrow> string \<Rightarrow> design_element \<Rightarrow> string \<Rightarrow> designs_state" where
  "updateElement_items state did element now =
     (case findIndex (\<lambda>d. id_d d = did) (items state) of
        None \<Rightarrow> state
      | Some i \<Rightarrow>
          (let design = items state ! i;
               els = (case findIndex (\<lambda>el. id_el el = id_el element) (elements design) of
                        Some elementIndex \<Rightarrow> (elements design)[elementIndex := element]
                      | None \<Rightarrow> elements design @ [element])
           in state\<lparr> items := (items state)[i := design\<lparr> elements := els, updatedAt := now \<rparr>] \<rparr>))"

text \<open>
  The invariant of this slice that answers to the element/order invariant: within a
  design no two elements share an id.
\<close>

definition ids_distinct :: "designs_state \<Rightarrow> bool" where
  "ids_distinct state \<longleftrightarrow> (\<forall>d \<in> set (items state). distinct (map id_el (elements d)))"

section \<open>History slices\<close>

text \<open>
  The history slice of \<^verbatim>\<open>features/canvas/model/historySlice.ts\<close>: two stacks of
  entries, the top of \<^verbatim>\<open>past\<close> at its end, the top of \<^verbatim>\<open>future\<close> at its front.
  \<^verbatim>\<open>pop\<close> and \<^verbatim>\<open>shift\<close> give \<^verbatim>\<open>undefined\<close> on an empty array, and the reducer
  then does nothing.
\<close>

record history_entry =
  designId_h :: string
  snapshot :: "design_element list"
  timestamp :: string

record history_state =
  past :: "history_entry list"
  future :: "history_entry list"

definition initialState_history :: history_state where
  "initialState_history = \<lparr> past = [], future = [] \<rparr>"

definition pushSnapshot :: "history_state \<Rightarrow> history_entry \<Rightarrow> history_state" where
  "pushSnapshot state payload = state\<lparr> past := past state @ [payload], future := [] \<rparr>"

definition undo :: "history_state \<Rightarrow> history_state" where
  "undo state =
     (if past state = [] then state
      else state\<lparr> past := butlast (past state), future := last (past state) # future state \<rparr>)"

definition redo :: "history_state \<Rightarrow> history_state" where
  "redo state =
     (case future state of
        [] \<Rightarrow> state
      | entry # rest \<Rightarrow> state\<lparr> past := past state @ [entry], future := rest \<rparr>)"

definition clearHistory :: "history_state \<Rightarrow> history_state" where
  "clearHistory state = state\<lparr> past := [], future := [] \<rparr>"

text \<open>
  The history slice of the system design document (\<^verbatim>\<open>features/design/historySlice.ts\<close>):
  snapshots of the design state in \<^verbatim>\<open>past\<close>, \<^verbatim>\<open>present\<close> and \<^verbatim>\<open>future\<close>, and at
  most 50 of them in \<^verbatim>\<open>past\<close>: \<^verbatim>\<open>shift\<close> drops the first, the oldest.
\<close>

record present_history =
  past_p :: "design_state list"
  present :: "design_state option"
  future_p :: "design_state list"

definition initialState_present_history :: present_history where
  "initialState_present_history = \<lparr> past_p = [], present = None, future_p = [] \<rparr>"

definition savePresent :: "present_history \<Rightarrow> design_state \<Rightarrow> present_history" where
  "savePresent state payload =
     state\<lparr> past_p :=
              (case present state of
                 None \<Rightarrow> past_p state
               | Some p \<Rightarrow>
                   (let pushed = past_p state @ [p]
                    in if length pushed > 50 then tl pushed else pushed)),
            present := Some payload,
            future_p := [] \<rparr>"

definition undo_present :: "present_history \<Rightarrow> present_history" where
  "undo_present state =
     (case present state of
        None \<Rightarrow> state
      | Some p \<Rightarrow>
          (if past_p state = [] then state
           else state\<lparr> past_p := butlast (past_p state),
                       present := Some (last (past_p state)),
                       future_p := p # future_p state \<rparr>))"

definition redo_present :: "present_history \<Rightarrow> present_history" where
  "redo_present state =
     (case present state of
        None \<Rightarrow> state
      | Some p \<Rightarrow>
          (case future_p state of
             [] \<Rightarrow> state
           | nxt # rest \<Rightarrow>
               state\<lparr> past_p := past_p state @ [p], present := Some nxt, future_p := rest \<rparr>))"

section \<open>Presence slice\<close>

text \<open>
  \<^verbatim>\<open>features/design/presenceSlice.ts\<close>. The \<^verbatim>\<open>collaborators\<close> record is a dictionary
  keyed by collaborator id.
\<close>

record collaborator_presence =
  id_c :: string
  name_c :: string
  color :: string
  cursor :: "(real \<times> real) option"
  lastActiveAt :: string

record presence_state =
  collaborators :: "string \<rightharpoonup> collaborator_presence"
  isConnected :: bool

definition initialState_presence :: presence_state where
  "initialState_presence = \<lparr> collaborators = Map.empty, isConnected = False \<rparr>"

definition setConnectionState :: "presence_state \<Rightarrow> bool \<Rightarrow> presence_state" where
  "setConnectionState state payload = state\<lparr> isConnected := payload \<rparr>"

definition upsertCollaborator ::
  "presence_state \<Rightarrow> collaborator_presence \<Rightarrow> error + presence_state" where
  "upsertCollaborator state payload =
     (case assign (collaborators state) (id_c payload) payload of
        Inl e \<Rightarrow> Inl e
      | Inr m \<Rightarrow> Inr (state\<lparr> collaborators := m \<rparr>))"

definition removeCollaborator :: "presence_state \<Rightarrow> string \<Rightarrow> presence_state" where
  "removeCollaborator state payload =
     state\<lparr> collaborators := (collaborators state)(payload := None) \<rparr>"

definition resetPresence :: "presence_state \<Rightarrow> presence_state" where
  "resetPresence state = initialState_presence"

section \<open>Store and realtime events\<close>

text \<open>
  \<^verbatim>\<open>app/store.ts\<close> mounts one reducer each under \<^verbatim>\<open>design\<close>, \<^verbatim>\<open>history\<close> and
  \<^verbatim>\<open>presence\<close>. Every reducer sees every dispatched action, and a slice reducer
  answers the actions of its own slice only. Mounted here: the design slice that the
  element events of \<^verbatim>\<open>useRealtime\<close> dispatch to, and the history and presence slices
  of \<^verbatim>\<open>features/canvas/model\<close>. The caches of the query API are not modelled.
\<close>

datatype history_action = PushSnapshot history_entry | Undo | Redo | ClearHistory

datatype presence_action =
    SetConnectionState bool
  | UpsertCollaborator collaborator_presence
  | RemoveCollaborator string
  | ResetPresence

datatype action =
    DesignAction design_action
  | HistoryAction history_action
  | PresenceAction presence_action

fun history_reduce :: "history_state \<Rightarrow> history_action \<Rightarrow> history_state" where
  "history_reduce state (PushSnapshot payload) = pushSnapshot state payload"
| "history_reduce state Undo = undo state"
| "history_reduce state Redo = redo state"
| "history_reduce state ClearHistory = clearHistory state"

fun presence_reduce :: "presence_state \<Rightarrow> presence_action \<Rightarrow> error + presence_state" where
  "presence_reduce state (SetConnectionState payload) = Inr (setConnectionState state payload)"
| "presence_reduce state (UpsertCollaborator payload) = upsertCollaborator state payload"
| "presence_reduce state (RemoveCollaborator payload) = Inr (removeCollaborator state payload)"
| "presence_reduce state ResetPresence = Inr (resetPresence state)"

fun designReducer :: "design_state \<Rightarrow> action \<Rightarrow> error + design_state" where
  "designReducer state (DesignAction a) = design_reduce state a"
| "designReducer state _ = Inr state"

fun historyReducer :: "history_state \<Rightarrow> action \<Rightarrow> history_state" where
  "historyReducer state (HistoryAction a) = history_reduce state a"
| "historyReducer state _ = state"

fun presenceReducer :: "presence_state \<Rightarrow> action \<Rightarrow> error + presence_state" where
  "presenceReducer state (PresenceAction a) = presence_reduce state a"
| "presenceReducer state _ = Inr state"

record root_state =
  design :: design_state
  history :: history_state
  presence :: presence_state

definition rootReducer :: "root_state \<Rightarrow> action \<Rightarrow> error + root_state" where
  "rootReducer state a =
     (case designReducer (design state) a of
        Inl e \<Rightarrow> Inl e
      | Inr d \<Rightarrow>
          (case presenceReducer (presence state) a of
             Inl e \<Rightarrow> Inl e
           | Inr p \<Rightarrow>
               Inr \<lparr> design = d, history = historyReducer (history state) a,
                     presence = p \<rparr>))"

text \<open>
  The state of the store after \<^verbatim>\<open>dispatch\<close>: when a reducer throws, \<^verbatim>\<open>dispatch\<close>
  throws to its caller and the store keeps the state it had.
\<close>

definition dispatch :: "root_state \<Rightarrow> action \<Rightarrow> root_state" where
  "dispatch state a = settle state (rootReducer state a)"

text \<open>
  The listeners of \<^verbatim>\<open>hooks/useRealtime.ts\<close> for the transport and presence events.
\<close>

definition handleConnect :: "root_state \<Rightarrow> root_state" where
  "handleConnect state = dispatch state (PresenceAction (SetConnectionState True))"

definition handleDisconnect :: "root_state \<Rightarrow> root_state" where
  "handleDisconnect state = dispatch state (PresenceAction (SetConnectionState False))"

definition handlePresence :: "root_state \<Rightarrow> collaborator_presence \<Rightarrow> root_state" where
  "handlePresence state payload = dispatch state (PresenceAction (UpsertCollaborator payload))"

definition handleLeave :: "root_state \<Rightarrow> string \<Rightarrow> root_state" where
  "handleLeave state cid = dispatch state (PresenceAction (RemoveCollaborator cid))"

text \<open>
  The inbound element events \<^verbatim>\<open>element-create\<close>, \<^verbatim>\<open>element-update\<close>,
  \<^verbatim>\<open>element-delete\<close> and \<^verbatim>\<open>layer-reorder\<close> with what their listeners in
  \<^verbatim>\<open>useRealtime\<close> read of the payload.
\<close>

datatype patch_body =
    Create design_element
  | Update string element_patch
  | Delete string
  | Reorder "string list"

text \<open>
  Modelled from the spec: the origin collaborator id and the per-origin sequence number
  that a \<^verbatim>\<open>PatchMessage\<close> carries. The payloads under \<^verbatim>\<open>src/\<close> are untyped, and no
  listener reads an origin or a sequence number from them.
\<close>

record patch_message =
  origin :: string
  seq :: nat
  body :: patch_body

fun action_of :: "patch_body \<Rightarrow> design_action" where
  "action_of (Create el) = AddElement el"
| "action_of (Update eid patch) = UpdateElement eid patch"
| "action_of (Delete eid) = DeleteElement eid"
| "action_of (Reorder newOrder) = ReorderLayers newOrder"

definition applyRemote :: "root_state \<Rightarrow> patch_message \<Rightarrow> root_state" where
  "applyRemote state msg = dispatch state (DesignAction (action_of (body msg)))"

section \<open>Example data\<close>

text \<open>A rectangle styled as the seed design's, and a patch that sets \<^verbatim>\<open>x\<close> only.\<close>

definition rect_at :: "string \<Rightarrow> real \<Rightarrow> real \<Rightarrow> design_element" where
  "rect_at eid px py =
     \<lparr> id_el = eid, type_el = Rect, x_el = px, y_el = py, width = 320, height = 96,
       rotation = 0, zIndex = 1, opacity = 1, locked = None, text_el = None,
       fontFamily = None, fontSize = None, fontWeight = None, fill = Some ''#2563eb'',
       align = None, src = None, fit = None, stroke = Some ''#60a5fa'',
       strokeWidth = Some 2, radius = Some 20 \<rparr>"

definition empty_patch :: element_patch where
  "empty_patch =
     \<lparr> p_id = None, p_type = None, p_x = None, p_y = None, p_width = None,
       p_height = None, p_rotation = None, p_zIndex = None, p_opacity = None,
       p_locked = None, p_text = None, p_fontFamily = None, p_fontSize = None,
       p_fontWeight = None, p_fill = None, p_align = None, p_src = None, p_fit = None,
       p_stroke = None, p_strokeWidth = None, p_radius = None \<rparr>"

definition patch_x :: "real \<Rightarrow> element_patch" where
  "patch_x v = empty_patch\<lparr> p_x := Some v \<rparr>"

definition state_ab :: design_state where
  "state_ab =
     design_step (design_step initialState_design (AddElement (rect_at ''a'' 0 0)))
       (AddElement (rect_at ''b'' 0 0))"

definition root_of :: "design_state \<Rightarrow> root_state" where
  "root_of d = \<lparr> design = d, history = initialState_history, presence = initialState_presence \<rparr>"

definition example_actions :: "design_action list" where
  "example_actions =
     [AddElement (rect_at ''a'' 0 0), UpdateElement ''a'' (patch_x 50),
      AddElement (rect_at ''b'' 0 0), ReorderLayers [''b'', ''a''], DeleteElement ''a'']"

text \<open>
  The scenario of the undo test: the element \<^verbatim>\<open>a\<close> created at \<open>x = 0\<close>, then moved
  to \<open>x = 50\<close>.
\<close>

definition state_a0 :: design_state where
  "state_a0 = design_step initialState_design (AddElement (rect_at ''a'' 0 0))"

definition state_a50 :: design_state where
  "state_a50 = design_step state_a0 (UpdateElement ''a'' (patch_x 50))"

text \<open>The \<^verbatim>\<open>x\<close> of an element of a snapshot, if the snapshot and the element exist.\<close>

definition x_in :: "design_state option \<Rightarrow> string \<Rightarrow> real option" where
  "x_in st eid =
     (case st of None \<Rightarrow> None | Some s \<Rightarrow> Option.bind (elementsById s eid) stored_x)"

definition entry_of :: "string \<Rightarrow> design_element list \<Rightarrow> history_entry" where
  "entry_of ts els = \<lparr> designId_h = ''seed-design'', snapshot = els, timestamp = ts \<rparr>"

text \<open>
  The same scenario dispatched to the store, a snapshot pushed after each mutation,
  and then \<^verbatim>\<open>undo\<close> dispatched as the editor's toolbar does.
\<close>

definition undo_scenario :: "action list" where
  "undo_scenario =
     [DesignAction (AddElement (rect_at ''a'' 0 0)),
      HistoryAction (PushSnapshot (entry_of ''t1'' [rect_at ''a'' 0 0])),
      DesignAction (UpdateElement ''a'' (patch_x 50)),
      HistoryAction (PushSnapshot (entry_of ''t2'' [rect_at ''a'' 50 0])),
      HistoryAction Undo]"

text \<open>
  Two updates of \<^verbatim>\<open>a\<close> from one origin, the one numbered 2 setting \<open>x = 50\<close>, the one
  numbered 1 setting \<open>x = 10\<close>.
\<close>

definition update_seq2 :: patch_message where
  "update_seq2 = \<lparr> origin = ''u1'', seq = 2, body = Update ''a'' (patch_x 50) \<rparr>"

definition update_seq1 :: patch_message where
  "update_seq1 = \<lparr> origin = ''u1'', seq = 1, body = Update ''a'' (patch_x 10) \<rparr>"

text \<open>An inbound delete of \<^verbatim>\<open>b\<close>, and a session with two collaborators.\<close>

definition delete_b :: patch_message where
  "delete_b = \<lparr> origin = ''u2'', seq = 1, body = Delete ''b'' \<rparr>"

definition presence_ann_bob :: presence_state where
  "presence_ann_bob =
     presence
       (foldl dispatch (root_of initialState_design)
          [PresenceAction (SetConnectionState True),
           PresenceAction (UpsertCollaborator
             \<lparr> id_c = ''ann'', name_c = ''Ann'', color = ''#f472b6'',
               cursor = Some (10, 20), lastActiveAt = ''t0'' \<rparr>),
           PresenceAction (UpsertCollaborator
             \<lparr> id_c = ''bob'', name_c = ''Bob'', color = ''#60a5fa'', cursor = None,
               lastActiveAt = ''t1'' \<rparr>)])"

section \<open>The element/order invariant\<close>

text \<open>What an assignment and a step give.\<close>

lemma assign_Inr: "assign obj key v = Inr m \<longleftrightarrow> key \<noteq> ''__proto__'' \<and> m = obj(key \<mapsto> v)"
  by (auto simp: assign_def)

lemma assign_proto: "assign obj ''__proto__'' v = Inl SetPrototypeOfDraft"
  by (simp add: assign_def)

lemma settle_cases: "settle s r = s \<or> r = Inr (settle s r)"
  by (cases r) (simp_all add: settle_def)

lemma read_own: "obj key = Some v \<Longrightarrow> read obj key = Own v"
  by (simp add: read_def)

lemma read_Undefined:
  "read obj key = Undefined \<longleftrightarrow> obj key = None \<and> key \<notin> set object_prototype_keys"
  by (simp add: read_def split: option.splits)

lemma read_Inherited:
  "read obj key = Inherited \<longleftrightarrow> obj key = None \<and> key \<in> set object_prototype_keys"
  by (simp add: read_def split: option.splits)

text \<open>Each reducer of the design slice keeps the invariant, three of them under the guard above.\<close>

lemma store_inv_addElement:
  "store_inv s \<Longrightarrow> elementsById s (id_el el) = None \<Longrightarrow> addElement s el = Inr s'
   \<Longrightarrow> store_inv s'"
  by (auto simp: store_inv_def addElement_def assign_Inr split: sum.splits)

lemma store_inv_updateElement:
  assumes "store_inv s"
    and "read (elementsById s) eid \<noteq> Inherited \<or> eid = ''__proto__''"
    and "updateElement s eid p = Inr s'"
  shows "store_inv s'"
proof (cases "read (elementsById s) eid")
  case (Own existing)
  then have "elementsById s eid = Some existing"
    by (simp add: read_def split: option.splits if_splits)
  then have d: "dom ((elementsById s)(eid \<mapsto> spread_stored existing p)) = dom (elementsById s)"
    by auto
  from assms(3) Own have "s' = s\<lparr> elementsById := (elementsById s)(eid \<mapsto> spread_stored existing p),
      dirty := True \<rparr>"
    by (auto simp: updateElement_def assign_Inr split: sum.splits)
  with assms(1) d show ?thesis by (simp add: store_inv_def)
next
  case Inherited
  with assms(2) have "eid = ''__proto__''" by simp
  with assms(3) Inherited show ?thesis by (simp add: updateElement_def assign_proto)
next
  case Undefined
  with assms(1,3) show ?thesis by (simp add: updateElement_def)
qed

lemma store_inv_deleteElement: "store_inv s \<Longrightarrow> store_inv (deleteElement s eid)"
  by (auto simp: store_inv_def deleteElement_def)

lemma store_inv_reorderLayers:
  "store_inv s \<Longrightarrow> mset newOrder = mset (layerOrder s) \<Longrightarrow> store_inv (reorderLayers s newOrder)"
  by (auto simp: store_inv_def reorderLayers_def dest: mset_eq_setD mset_eq_imp_distinct_iff)

lemma guarded_reduce:
  "store_inv s \<Longrightarrow> guarded s a \<Longrightarrow> design_reduce s a = Inr s' \<Longrightarrow> store_inv s'"
proof (cases a)
  case (AddElement el)
  assume "store_inv s" "guarded s a" "design_reduce s a = Inr s'"
  with AddElement show ?thesis by (simp add: store_inv_addElement)
next
  case (UpdateElement eid patch)
  assume "store_inv s" "guarded s a" "design_reduce s a = Inr s'"
  with UpdateElement show ?thesis using store_inv_updateElement[of s eid patch s'] by simp
next
  case (DeleteElement eid)
  assume "store_inv s" "design_reduce s a = Inr s'"
  with DeleteElement show ?thesis by (auto simp: store_inv_deleteElement)
next
  case (ReorderLayers newOrder)
  assume "store_inv s" "guarded s a" "design_reduce s a = Inr s'"
  with ReorderLayers show ?thesis by (auto simp: store_inv_reorderLayers)
next
  case (SetSelectedElement payload)
  assume "store_inv s" "design_reduce s a = Inr s'"
  with SetSelectedElement show ?thesis by (auto simp: store_inv_def setSelectedElement_def)
next
  case (SetName payload)
  assume "store_inv s" "design_reduce s a = Inr s'"
  with SetName show ?thesis by (auto simp: store_inv_def setName_def)
qed

lemma guarded_step: "store_inv s \<Longrightarrow> guarded s a \<Longrightarrow> store_inv (design_step s a)"
  using settle_cases[of s "design_reduce s a"] guarded_reduce[of s a "design_step s a"]
  by (auto simp: design_step_def)

text \<open>Facts about the example data.\<close>

lemma rect_at_id [simp]: "id_el (rect_at eid px py) = eid"
  by (simp add: rect_at_def)

lemma rect_at_x [simp]: "x_el (rect_at eid px py) = px"
  by (simp add: rect_at_def)

lemma spread_patch_x [simp]: "x_el (spread e (patch_x v)) = v"
  by (simp add: spread_def patch_x_def over_def)

lemma design_step_add:
  "id_el el \<noteq> ''__proto__'' \<Longrightarrow>
   design_step s (AddElement el) =
     s\<lparr> elementsById := (elementsById s)(id_el el \<mapsto> Element el),
        layerOrder := layerOrder s @ [id_el el], dirty := True \<rparr>"
  by (simp add: design_step_def settle_def addElement_def assign_def)

lemma design_step_update_own:
  "elementsById s eid = Some existing \<Longrightarrow> eid \<noteq> ''__proto__'' \<Longrightarrow>
   design_step s (UpdateElement eid p) =
     s\<lparr> elementsById := (elementsById s)(eid \<mapsto> spread_stored existing p), dirty := True \<rparr>"
  by (simp add: design_step_def settle_def updateElement_def assign_def read_def)

lemma design_step_update_inherited:
  "elementsById s eid = None \<Longrightarrow> eid \<in> set object_prototype_keys \<Longrightarrow> eid \<noteq> ''__proto__'' \<Longrightarrow>
   design_step s (UpdateElement eid p) =
     s\<lparr> elementsById := (elementsById s)(eid \<mapsto> Stray p), dirty := True \<rparr>"
  by (simp add: design_step_def settle_def updateElement_def assign_def read_def)

lemma design_step_update_undefined:
  "elementsById s eid = None \<Longrightarrow> eid \<notin> set object_prototype_keys \<Longrightarrow>
   design_step s (UpdateElement eid p) = s"
  by (simp add: design_step_def settle_def updateElement_def read_def)

lemma design_step_delete: "design_step s (DeleteElement eid) = deleteElement s eid"
  by (simp add: design_step_def settle_def)

lemma design_step_reorder: "design_step s (ReorderLayers newOrder) = reorderLayers s newOrder"
  by (simp add: design_step_def settle_def)

lemma store_inv_initial: "store_inv initialState_design"
  by (simp add: store_inv_def initialState_design_def)

lemma state_ab_order: "layerOrder state_ab = [''a'', ''b'']"
  by (simp add: state_ab_def design_step_add initialState_design_def)

lemma state_ab_dom: "dom (elementsById state_ab) = {''a'', ''b''}"
  by (simp add: state_ab_def design_step_add initialState_design_def insert_commute)

lemma store_inv_state_ab: "store_inv state_ab"
  by (simp add: store_inv_def state_ab_order state_ab_dom)

lemma constructor_inherited:
  "''constructor'' \<in> set object_prototype_keys \<and> ''constructor'' \<noteq> ''__proto__''"
  by (simp add: object_prototype_keys_def)

text \<open>
  C1 (amended). From a state that satisfies the element/order invariant, after each
  action of a sequence of slice actions in which every added element has a fresh id,
  every reorder is a permutation of the current layer order and no update reads a member of \<^verbatim>\<open>Object.prototype\<close> for
  its element (its id is a key of the element map, or no such member's name, or
  \<^verbatim>\<open>__proto__\<close>), the invariant holds again: the ids of the layer order are distinct
  and are exactly the keys of the element map. Deletes need no guard. An action on
  which the reducer throws leaves the state, and the invariant with it.
\<close>

theorem invariant_kept_by_guarded_actions:
  "store_inv s \<Longrightarrow> all_guarded s as \<Longrightarrow>
   \<forall>k \<le> length as. store_inv (foldl design_step s (take k as))"
proof (induction as arbitrary: s)
  case Nil
  then show ?case by simp
next
  case (Cons a as)
  have step: "store_inv (design_step s a)" using Cons.prems by (simp add: guarded_step)
  have rest: "all_guarded (design_step s a) as" using Cons.prems by simp
  show ?case
  proof (intro allI impI)
    fix k assume "k \<le> length (a # as)"
    then show "store_inv (foldl design_step s (take k (a # as)))"
      using Cons.IH[OF step rest] Cons.prems(1) by (cases k) auto
  qed
qed

text \<open>
  The theorem at a run that creates \<^verbatim>\<open>a\<close>, moves it, creates \<^verbatim>\<open>b\<close>, swaps the two
  layers and deletes \<^verbatim>\<open>a\<close>.
\<close>

theorem invariant_kept_witness:
  "store_inv initialState_design \<and> all_guarded initialState_design example_actions
   \<and> store_inv (foldl design_step initialState_design example_actions)
   \<and> layerOrder (foldl design_step initialState_design example_actions) = [''b'']"
proof -
  have g: "all_guarded initialState_design example_actions"
    by (simp add: example_actions_def design_step_add design_step_update_own
        design_step_reorder initialState_design_def read_def reorderLayers_def)
  have "store_inv (foldl design_step initialState_design (take 5 example_actions))"
    using invariant_kept_by_guarded_actions[OF store_inv_initial g, rule_format, of 5]
    by (simp add: example_actions_def)
  then have i: "store_inv (foldl design_step initialState_design example_actions)"
    by (simp add: example_actions_def)
  have l: "layerOrder (foldl design_step initialState_design example_actions) = [''b'']"
    by (simp add: example_actions_def design_step_add design_step_update_own
        design_step_reorder design_step_delete initialState_design_def reorderLayers_def
        deleteElement_def)
  from store_inv_initial g i l show ?thesis by blast
qed

text \<open>
  C1 as stated fails: \<^verbatim>\<open>reorderLayers\<close> installs an order with an unknown id and
  without a known one, \<^verbatim>\<open>addElement\<close> with an id already in the map appends that id to
  the layer order a second time, and \<^verbatim>\<open>updateElement\<close> of the id \<^verbatim>\<open>constructor\<close>, which
  no element has, makes it a key of the element map and no layer.
\<close>

theorem invariant_broken_counterexample:
  "store_inv state_ab
   \<and> \<not> store_inv (design_step state_ab (ReorderLayers [''a'', ''ghost'']))
   \<and> \<not> store_inv (design_step state_ab (AddElement (rect_at ''a'' 5 5)))
   \<and> \<not> store_inv (design_step state_ab (UpdateElement ''constructor'' (patch_x 10)))"
proof -
  have "\<not> store_inv (design_step state_ab (ReorderLayers [''a'', ''ghost'']))"
  proof
    assume "store_inv (design_step state_ab (ReorderLayers [''a'', ''ghost'']))"
    then have eq: "set [''a'', ''ghost''] = dom (elementsById state_ab)"
      by (simp add: store_inv_def design_step_reorder reorderLayers_def)
    have "''ghost'' \<in> set [''a'', ''ghost'']" by simp
    then have "''ghost'' \<in> dom (elementsById state_ab)" unfolding eq .
    then show False by (simp add: state_ab_dom)
  qed
  moreover have "\<not> store_inv (design_step state_ab (AddElement (rect_at ''a'' 5 5)))"
    by (simp add: store_inv_def design_step_add state_ab_order)
  moreover have "\<not> store_inv (design_step state_ab (UpdateElement ''constructor'' (patch_x 10)))"
  proof
    assume a: "store_inv (design_step state_ab (UpdateElement ''constructor'' (patch_x 10)))"
    have "''constructor'' \<notin> dom (elementsById state_ab)" by (simp add: state_ab_dom)
    then have n: "elementsById state_ab ''constructor'' = None" by (simp add: domIff)
    have "design_step state_ab (UpdateElement ''constructor'' (patch_x 10)) =
        state_ab\<lparr> elementsById := (elementsById state_ab)(''constructor'' \<mapsto> Stray (patch_x 10)),
          dirty := True \<rparr>"
      using design_step_update_inherited[OF n] constructor_inherited by simp
    with a have "set (layerOrder state_ab) = insert ''constructor'' (dom (elementsById state_ab))"
      by (simp add: store_inv_def)
    moreover have "''constructor'' \<in> insert ''constructor'' (dom (elementsById state_ab))"
      by (rule insertI1)
    ultimately have "''constructor'' \<in> set (layerOrder state_ab)" by (simp only:)
    then show False by (simp add: state_ab_order)
  qed
  ultimately show ?thesis using store_inv_state_ab by blast
qed

section \<open>Undo and redo over snapshots\<close>

text \<open>
  What \<^verbatim>\<open>savePresent\<close> leaves in \<^verbatim>\<open>past\<close>: the old \<^verbatim>\<open>present\<close> is pushed at the end,
  and the first entry goes when that makes more than 50.
\<close>

lemma savePresent_present [simp]: "present (savePresent h s) = Some s"
  by (simp add: savePresent_def)

lemma savePresent_future [simp]: "future_p (savePresent h s) = []"
  by (simp add: savePresent_def)

lemma savePresent_past:
  "past_p (savePresent h s) =
     (case present h of
        None \<Rightarrow> past_p h
      | Some p \<Rightarrow> if 50 \<le> length (past_p h) then tl (past_p h) @ [p] else past_p h @ [p])"
proof (cases "present h")
  case None
  then show ?thesis by (simp add: savePresent_def)
next
  case (Some p)
  show ?thesis
  proof (cases "50 \<le> length (past_p h)")
    case True
    then have "past_p h \<noteq> []" by auto
    then have "tl (past_p h @ [p]) = tl (past_p h) @ [p]" by simp
    with True Some show ?thesis by (simp add: savePresent_def Let_def)
  next
    case False
    with Some show ?thesis by (simp add: savePresent_def Let_def)
  qed
qed

lemma savePresent_pushes_present:
  "present h = Some p \<Longrightarrow> \<exists>xs. past_p (savePresent h s) = xs @ [p]"
  by (simp add: savePresent_past)

lemma undo_present_pops:
  "present h = Some s \<Longrightarrow> past_p h = xs @ [p] \<Longrightarrow>
   undo_present h = h\<lparr> past_p := xs, present := Some p, future_p := s # future_p h \<rparr>"
  by (simp add: undo_present_def)

lemma redo_present_shifts:
  "present h = Some p \<Longrightarrow> future_p h = s # f \<Longrightarrow>
   redo_present h = h\<lparr> past_p := past_p h @ [p], present := Some s, future_p := f \<rparr>"
  by (simp add: redo_present_def)

lemma undo_present_after_two:
  "present (undo_present (savePresent (savePresent h a) b)) = Some a"
proof -
  obtain xs where "past_p (savePresent (savePresent h a) b) = xs @ [a]"
    using savePresent_pushes_present[of "savePresent h a" a b] by auto
  then show ?thesis by (simp add: undo_present_pops[where s = b])
qed

lemma redo_undo_present_after_two:
  "redo_present (undo_present (savePresent (savePresent h a) b)) = savePresent (savePresent h a) b"
proof -
  let ?h = "savePresent (savePresent h a) b"
  obtain xs where xs: "past_p ?h = xs @ [a]"
    using savePresent_pushes_present[of "savePresent h a" a b] by auto
  have u: "undo_present ?h = ?h\<lparr> past_p := xs, present := Some a, future_p := [b] \<rparr>"
    using undo_present_pops[of ?h b xs a] xs by simp
  have "redo_present (undo_present ?h) = ?h\<lparr> past_p := xs @ [a], present := Some b, future_p := [] \<rparr>"
    unfolding u by (simp add: redo_present_def)
  also have "\<dots> = ?h" using xs by simp
  finally show ?thesis .
qed

lemma undo_present_after_first_snapshot:
  "undo_present (savePresent initialState_present_history s)
     = savePresent initialState_present_history s"
  by (simp add: undo_present_def savePresent_def initialState_present_history_def)

lemma foldl_savePresent_two:
  assumes "2 \<le> length ss"
  shows "\<exists>pre a b. ss = pre @ [a, b]"
proof -
  from assms obtain pre1 b where s1: "ss = pre1 @ [b]"
    by (cases ss rule: rev_cases) auto
  with assms obtain pre a where "pre1 = pre @ [a]"
    by (cases pre1 rule: rev_cases) auto
  with s1 show ?thesis by auto
qed

text \<open>
  A history action leaves the design slice as it is: the scenario dispatched to the
  store still has \<^verbatim>\<open>a\<close> at \<open>x = 50\<close> after \<^verbatim>\<open>undo\<close>, and the entry pushed last has moved
  to \<^verbatim>\<open>future\<close>.
\<close>

lemma dispatch_design [simp]:
  "design (dispatch s (DesignAction a)) = design_step (design s) a"
  by (simp add: dispatch_def rootReducer_def design_step_def settle_def split: sum.splits)

lemma dispatch_history [simp]:
  "dispatch s (HistoryAction a) = s\<lparr> history := history_reduce (history s) a \<rparr>"
  by (simp add: dispatch_def rootReducer_def settle_def)

lemma dispatch_design_history [simp]:
  "history (dispatch s (DesignAction a)) = history s"
  by (simp add: dispatch_def rootReducer_def settle_def split: sum.splits)

lemma undo_leaves_design:
  "design (dispatch store (HistoryAction a)) = design store"
  by simp

lemma undo_scenario_store:
  "x_in (Some (design (foldl dispatch (root_of initialState_design) undo_scenario))) ''a'' = Some 50"
  by (simp add: undo_scenario_def root_of_def x_in_def design_step_add
      design_step_update_own initialState_design_def)

lemma undo_scenario_history:
  "map timestamp (past (history (foldl dispatch (root_of initialState_design) undo_scenario))) = [''t1'']
   \<and> map timestamp (future (history (foldl dispatch (root_of initialState_design) undo_scenario))) = [''t2'']"
  by (simp add: undo_scenario_def root_of_def pushSnapshot_def undo_def
      initialState_history_def entry_of_def)

lemma state_a0_a: "elementsById state_a0 ''a'' = Some (Element (rect_at ''a'' 0 0))"
  by (simp add: state_a0_def design_step_add)

lemma x_in_state_a0: "x_in (Some state_a0) ''a'' = Some 0"
  by (simp add: x_in_def state_a0_a)

lemma x_in_state_a50: "x_in (Some state_a50) ''a'' = Some 50"
  by (simp add: x_in_def state_a50_def design_step_update_own[OF state_a0_a])

text \<open>
  C2 (amended). After \<open>n \<ge> 2\<close> snapshot calls, from any history state, \<^verbatim>\<open>undo\<close> makes
  \<^verbatim>\<open>present\<close> the snapshot of call \<open>n - 1\<close>, the state just before mutation \<open>n\<close> when a
  snapshot follows every mutation; \<^verbatim>\<open>redo\<close> after that \<^verbatim>\<open>undo\<close> gives back the history
  state from before the \<^verbatim>\<open>undo\<close>, whose \<^verbatim>\<open>present\<close> is the last snapshot. The reducers
  change the history slice only: the restored snapshot is its \<^verbatim>\<open>present\<close>.
\<close>

theorem undo_restores_previous_snapshot:
  assumes "2 \<le> length ss"
  shows "present (undo_present (foldl savePresent h ss)) = Some (ss ! (length ss - 2))
       \<and> present (redo_present (undo_present (foldl savePresent h ss))) = Some (last ss)
       \<and> redo_present (undo_present (foldl savePresent h ss)) = foldl savePresent h ss"
proof -
  from foldl_savePresent_two[OF assms] obtain pre a b where ss: "ss = pre @ [a, b]" by blast
  let ?h0 = "foldl savePresent h pre"
  have f: "foldl savePresent h ss = savePresent (savePresent ?h0 a) b" by (simp add: ss)
  have n: "ss ! (length ss - 2) = a" by (simp add: ss nth_append)
  have l: "last ss = b" by (simp add: ss)
  have r: "redo_present (undo_present (foldl savePresent h ss)) = foldl savePresent h ss"
    unfolding f by (rule redo_undo_present_after_two)
  have u: "present (undo_present (foldl savePresent h ss)) = Some a"
    unfolding f by (rule undo_present_after_two)
  from r u n l show ?thesis by (simp add: f)
qed

text \<open>
  The scenario: \<^verbatim>\<open>a\<close> created at \<open>x = 0\<close>, snapshot, \<^verbatim>\<open>a\<close> moved to \<open>x = 50\<close>, snapshot;
  \<^verbatim>\<open>undo\<close> gives \<^verbatim>\<open>a\<close> at \<open>0\<close>, \<^verbatim>\<open>redo\<close> gives \<^verbatim>\<open>a\<close> at \<open>50\<close>.
\<close>

theorem undo_restores_previous_snapshot_witness:
  "2 \<le> length [state_a0, state_a50]
   \<and> x_in (present (undo_present
        (foldl savePresent initialState_present_history [state_a0, state_a50]))) ''a'' = Some 0
   \<and> x_in (present (redo_present (undo_present
        (foldl savePresent initialState_present_history [state_a0, state_a50])))) ''a'' = Some 50"
proof -
  have n: "2 \<le> length [state_a0, state_a50]" by simp
  from undo_restores_previous_snapshot[OF n, of initialState_present_history]
  have "present (undo_present
          (foldl savePresent initialState_present_history [state_a0, state_a50])) = Some state_a0"
    and "present (redo_present (undo_present
          (foldl savePresent initialState_present_history [state_a0, state_a50]))) = Some state_a50"
    by simp_all
  then show ?thesis using x_in_state_a0 x_in_state_a50 by simp
qed

text \<open>
  C2 as stated fails at \<open>n = 1\<close>: after the first snapshot \<^verbatim>\<open>past\<close> is empty and
  \<^verbatim>\<open>undo\<close> returns at its guard; \<^verbatim>\<open>present\<close> still holds \<^verbatim>\<open>a\<close>, which the state before
  the first mutation does not. And in the store the design slice is not the restored
  state: after the scenario and \<^verbatim>\<open>undo\<close> it holds \<^verbatim>\<open>a\<close> at \<open>x = 50\<close>.
\<close>

theorem undo_after_first_snapshot_counterexample:
  "present (undo_present (savePresent initialState_present_history state_a0)) = Some state_a0
   \<and> state_a0 \<noteq> initialState_design
   \<and> x_in (present (undo_present (savePresent initialState_present_history state_a0))) ''a'' = Some 0
   \<and> x_in (Some initialState_design) ''a'' = None
   \<and> x_in (Some (design (foldl dispatch (root_of initialState_design) undo_scenario))) ''a''
       = Some 50"
proof -
  have "layerOrder state_a0 \<noteq> layerOrder initialState_design"
    by (simp add: state_a0_def design_step_add initialState_design_def)
  then have "state_a0 \<noteq> initialState_design" by auto
  moreover have "present (undo_present (savePresent initialState_present_history state_a0)) = Some state_a0"
    by (simp add: savePresent_def undo_present_def initialState_present_history_def)
  moreover have "x_in (Some initialState_design) ''a'' = None"
    by (simp add: x_in_def initialState_design_def)
  ultimately show ?thesis using x_in_state_a0 undo_scenario_store by simp
qed

section \<open>The bound on the history\<close>

text \<open>
  \<^verbatim>\<open>savePresent\<close> keeps \<^verbatim>\<open>past\<close> within 50 entries, and the entry it drops at 50 is the
  first, the oldest.
\<close>

lemma savePresent_keeps_bound:
  "length (past_p h) \<le> 50 \<Longrightarrow> length (past_p (savePresent h s)) \<le> 50"
  by (auto simp: savePresent_past split: option.splits)

lemma foldl_savePresent_keeps_bound:
  "length (past_p h) \<le> 50 \<Longrightarrow> length (past_p (foldl savePresent h ss)) \<le> 50"
  by (induction ss arbitrary: h) (simp_all add: savePresent_keeps_bound)

lemma savePresent_drops_oldest:
  "present h = Some p \<Longrightarrow> length (past_p h) = 50 \<Longrightarrow>
   past_p (savePresent h s) = tl (past_p h) @ [p]"
  by (simp add: savePresent_past)

text \<open>\<^verbatim>\<open>pushSnapshot\<close> appends, and nothing is ever dropped.\<close>

lemma foldl_pushSnapshot_past:
  "past (foldl pushSnapshot h es) = past h @ es"
  by (induction es arbitrary: h) (simp_all add: pushSnapshot_def)

text \<open>
  C4. The past stack never exceeds the bound of 50, and the oldest entry is dropped on
  overflow: \<^verbatim>\<open>pushSnapshot\<close> does not do so. After 51 calls from the initial state
  \<^verbatim>\<open>past\<close> holds 51 entries, the first one pushed still at its front.
\<close>

theorem pushSnapshot_exceeds_the_bound:
  "length (past (foldl pushSnapshot initialState_history
      (entry_of ''first'' [] # replicate 50 (entry_of ''t'' [])))) = 51
   \<and> hd (past (foldl pushSnapshot initialState_history
      (entry_of ''first'' [] # replicate 50 (entry_of ''t'' [])))) = entry_of ''first'' []"
  by (simp add: foldl_pushSnapshot_past initialState_history_def pushSnapshot_def)

section \<open>Snapshots and the redo branch\<close>

text \<open>
  \<^verbatim>\<open>undo\<close> and \<^verbatim>\<open>redo\<close> of \<^verbatim>\<open>features/canvas/model/historySlice.ts\<close> move one entry
  between the two stacks.
\<close>

lemma redo_pushSnapshot: "redo (pushSnapshot h e) = pushSnapshot h e"
  by (simp add: redo_def pushSnapshot_def)

lemma redo_present_savePresent: "redo_present (savePresent hp s) = savePresent hp s"
  by (simp add: redo_present_def)

lemma undo_pushSnapshot:
  "undo (pushSnapshot h e) = h\<lparr> future := [e] \<rparr>"
  by (simp add: undo_def pushSnapshot_def)

lemma redo_undo: "past h \<noteq> [] \<Longrightarrow> redo (undo h) = h"
  by (simp add: undo_def redo_def)

text \<open>
  C8. A snapshot call made after one or more undo calls, from any history state, leaves
  the future stack empty, and a redo after it does nothing; so for \<^verbatim>\<open>pushSnapshot\<close>,
  and so for \<^verbatim>\<open>savePresent\<close>.
\<close>

theorem snapshot_after_undo_discards_future:
  "future (pushSnapshot ((undo ^^ Suc k) h) e) = []
   \<and> redo (pushSnapshot ((undo ^^ Suc k) h) e) = pushSnapshot ((undo ^^ Suc k) h) e
   \<and> future_p (savePresent ((undo_present ^^ Suc k) hp) s) = []
   \<and> redo_present (savePresent ((undo_present ^^ Suc k) hp) s)
       = savePresent ((undo_present ^^ Suc k) hp) s"
proof -
  have "future (pushSnapshot ((undo ^^ Suc k) h) e) = []"
    by (simp add: pushSnapshot_def)
  moreover have "future_p (savePresent ((undo_present ^^ Suc k) hp) s) = []"
    by (rule savePresent_future)
  ultimately show ?thesis
    using redo_pushSnapshot[of "(undo ^^ Suc k) h" e]
      redo_present_savePresent[of "(undo_present ^^ Suc k) hp" s]
    by (simp del: funpow.simps)
qed

section \<open>Reordering the layers\<close>

text \<open>
  C3 (amended). \<^verbatim>\<open>reorderLayers\<close> rejects nothing: whatever the new order is, a
  permutation of the current ids or not, it becomes the layer order and the design is
  marked dirty; every other field of the state is as before. A valid permutation
  replaces the layer order, and so does any other array.
\<close>

theorem reorderLayers_installs_any_order:
  "layerOrder (reorderLayers state newOrder) = newOrder
   \<and> dirty (reorderLayers state newOrder)
   \<and> elementsById (reorderLayers state newOrder) = elementsById state
   \<and> selectedElementId (reorderLayers state newOrder) = selectedElementId state
   \<and> designId (reorderLayers state newOrder) = designId state
   \<and> name (reorderLayers state newOrder) = name state
   \<and> width_s (reorderLayers state newOrder) = width_s state
   \<and> height_s (reorderLayers state newOrder) = height_s state"
  by (simp add: reorderLayers_def)

text \<open>
  C3 as stated fails: an order with an unknown id and without a known one is installed,
  and the state is not the one before.
\<close>

theorem reorderLayers_accepts_non_permutation_counterexample:
  "mset [''a'', ''ghost''] \<noteq> mset (layerOrder state_ab)
   \<and> layerOrder (reorderLayers state_ab [''a'', ''ghost'']) = [''a'', ''ghost'']
   \<and> reorderLayers state_ab [''a'', ''ghost''] \<noteq> state_ab"
proof -
  have m: "mset [''a'', ''ghost''] \<noteq> mset (layerOrder state_ab)"
  proof
    assume "mset [''a'', ''ghost''] = mset (layerOrder state_ab)"
    then have "set [''a'', ''ghost''] = set (layerOrder state_ab)" by (rule mset_eq_setD)
    moreover have "''ghost'' \<in> set [''a'', ''ghost'']" by simp
    ultimately have "''ghost'' \<in> set (layerOrder state_ab)" by simp
    then show False by (simp add: state_ab_order)
  qed
  have l: "layerOrder (reorderLayers state_ab [''a'', ''ghost'']) = [''a'', ''ghost'']"
    by (simp add: reorderLayers_def)
  have "layerOrder (reorderLayers state_ab [''a'', ''ghost'']) \<noteq> layerOrder state_ab"
    by (simp add: reorderLayers_def state_ab_order)
  then have "reorderLayers state_ab [''a'', ''ghost''] \<noteq> state_ab" by auto
  with m l show ?thesis by simp
qed

section \<open>Remote mutations\<close>

lemma applyRemote_design:
  "design (applyRemote state msg) = design_step (design state) (action_of (body msg))"
  by (simp add: applyRemote_def)

lemma applyRemote_history: "history (applyRemote state msg) = history state"
  by (simp add: applyRemote_def)

text \<open>
  C7. An inbound element event of any of the four kinds, and any sequence of them,
  leaves the history slice as it was, the past and the future stack with it: a listener
  dispatches a design action, and the history reducer answers none.
\<close>

theorem remote_mutations_leave_history_unchanged:
  "history (applyRemote state msg) = history state
   \<and> history (foldl applyRemote state msgs) = history state
   \<and> past (history (foldl applyRemote state msgs)) = past (history state)
   \<and> future (history (foldl applyRemote state msgs)) = future (history state)"
proof -
  have "history (foldl applyRemote state msgs) = history state"
  proof (induction msgs arbitrary: state)
    case Nil
    show ?case by simp
  next
    case (Cons m ms)
    have "history (foldl applyRemote (applyRemote state m) ms) = history (applyRemote state m)"
      by (rule Cons.IH)
    then show ?case by (simp add: applyRemote_history)
  qed
  then show ?thesis by (simp add: applyRemote_history)
qed

text \<open>
  C5 (amended). Two inbound updates of one element are applied in the order they
  arrive, whatever origins and sequence numbers they carry: the element afterwards is
  the old one overlaid with the first patch and then with the second, so that the
  update that arrives last wins on every property it sets. Only under the key
  \<^verbatim>\<open>__proto__\<close>, which no reducer can create, an element stays as it is: there every
  write throws.
\<close>

theorem remote_updates_apply_in_arrival_order:
  assumes "elementsById (design state) eid = Some (Element e)"
    and "body first = Update eid pa" and "body second = Update eid pb"
  shows "elementsById (design (applyRemote (applyRemote state first) second)) eid
           = Some (Element (if eid = ''__proto__'' then e else spread (spread e pa) pb))
       \<and> x_el (spread (spread e pa) pb) = over (p_x pb) (over (p_x pa) (x_el e))"
proof (cases "eid = ''__proto__''")
  case True
  have "design_step s (UpdateElement ''__proto__'' p) = s" for s p
    by (simp add: design_step_def settle_def updateElement_def assign_proto
        split: js_read.splits)
  with True assms show ?thesis by (simp add: applyRemote_design spread_def)
next
  case False
  from design_step_update_own[OF assms(1) False, of pa]
  have one: "elementsById (design (applyRemote state first)) eid = Some (Element (spread e pa))"
    using assms(2) by (simp add: applyRemote_design)
  from design_step_update_own[OF one False, of pb]
  have "elementsById (design (applyRemote (applyRemote state first) second)) eid
      = Some (Element (spread (spread e pa) pb))"
    using assms(3) by (simp add: applyRemote_design)
  with False show ?thesis by (simp add: spread_def)
qed

text \<open>The theorem at the updates numbered 2 and 1 arriving in that order.\<close>

theorem remote_updates_apply_in_arrival_order_witness:
  "elementsById (design (root_of state_a0)) ''a'' = Some (Element (rect_at ''a'' 0 0))
   \<and> body update_seq2 = Update ''a'' (patch_x 50) \<and> body update_seq1 = Update ''a'' (patch_x 10)
   \<and> Option.bind
        (elementsById (design (applyRemote (applyRemote (root_of state_a0) update_seq2) update_seq1)) ''a'')
        stored_x
       = Some 10"
proof -
  have a: "elementsById (design (root_of state_a0)) ''a'' = Some (Element (rect_at ''a'' 0 0))"
    by (simp add: root_of_def state_a0_a)
  have b: "body update_seq2 = Update ''a'' (patch_x 50)" by (simp add: update_seq2_def)
  have c: "body update_seq1 = Update ''a'' (patch_x 10)" by (simp add: update_seq1_def)
  from remote_updates_apply_in_arrival_order[OF a b c] a b c show ?thesis
    by simp
qed

text \<open>
  C5 as stated fails: of the updates numbered 2 and 1 from one origin, arriving in that
  order, the payload of number 1 is the one in the store.
\<close>

theorem later_sequence_number_loses_counterexample:
  "origin update_seq2 = origin update_seq1 \<and> seq update_seq2 = 2 \<and> seq update_seq1 = 1
   \<and> Option.bind
        (elementsById (design (applyRemote (applyRemote (root_of state_a0) update_seq2) update_seq1)) ''a'')
        stored_x
       = Some 10
   \<and> Option.bind
        (elementsById (design (applyRemote (applyRemote (root_of state_a0) update_seq2) update_seq1)) ''a'')
        stored_x
       \<noteq> Some 50"
proof -
  have b2: "body update_seq2 = Update ''a'' (patch_x 50)" by (simp add: update_seq2_def)
  have b1: "body update_seq1 = Update ''a'' (patch_x 10)" by (simp add: update_seq1_def)
  have zero: "elementsById (design (root_of state_a0)) ''a'' = Some (Element (rect_at ''a'' 0 0))"
    by (simp add: root_of_def state_a0_a)
  have one: "elementsById (design (applyRemote (root_of state_a0) update_seq2)) ''a''
      = Some (Element (spread (rect_at ''a'' 0 0) (patch_x 50)))"
    by (simp add: applyRemote_design b2 design_step_update_own[OF zero])
  from design_step_update_own[OF one, of "patch_x 10"]
  have "elementsById (design (applyRemote (applyRemote (root_of state_a0) update_seq2) update_seq1)) ''a''
      = Some (Element (spread (spread (rect_at ''a'' 0 0) (patch_x 50)) (patch_x 10)))"
    using b1 by (simp add: applyRemote_design)
  then show ?thesis by (simp add: update_seq2_def update_seq1_def)
qed

section \<open>The elements of a design in the list slice\<close>

text \<open>
  \<^verbatim>\<open>updateElement\<close> of the design list slice replaces the element of that id or
  appends the element: the ids of a design stay distinct, and the element written is
  the one found under its id afterwards, so that of two updates the later dispatched
  is the one in the store.
\<close>

lemma findIndex_None_iff: "findIndex P xs = None \<longleftrightarrow> (\<forall>x \<in> set xs. \<not> P x)"
  by (induction xs) auto

lemma findIndex_Some:
  "findIndex P xs = Some i \<Longrightarrow> i < length xs \<and> P (xs ! i) \<and> (\<forall>j < i. \<not> P (xs ! j))"
proof (induction xs arbitrary: i)
  case Nil
  then show ?case by simp
next
  case (Cons x xs)
  show ?case
  proof (cases "P x")
    case True
    with Cons.prems show ?thesis by simp
  next
    case False
    with Cons.prems obtain k where k: "findIndex P xs = Some k" and i: "i = Suc k" by auto
    from Cons.IH[OF k] have "k < length xs" "P (xs ! k)" "\<forall>j < k. \<not> P (xs ! j)" by auto
    with False i show ?thesis by (auto simp: nth_Cons split: nat.splits)
  qed
qed

lemma upsert_keeps_distinct:
  assumes "distinct (map id_el els)"
  shows "distinct (map id_el
           (case findIndex (\<lambda>el. id_el el = id_el element) els of
              Some elementIndex \<Rightarrow> els[elementIndex := element]
            | None \<Rightarrow> els @ [element]))"
proof (cases "findIndex (\<lambda>el. id_el el = id_el element) els")
  case None
  then have "id_el element \<notin> id_el ` set els" by (auto simp: findIndex_None_iff)
  with assms None show ?thesis by simp
next
  case (Some j)
  from findIndex_Some[OF Some] have j: "j < length els" "id_el (els ! j) = id_el element" by auto
  then have "map id_el (els[j := element]) = map id_el els"
    by (simp add: map_update list_update_same_conv)
  with assms Some show ?thesis by simp
qed

lemma updateElement_items_keeps_ids_distinct:
  assumes "ids_distinct state"
  shows "ids_distinct (updateElement_items state did element now)"
proof (cases "findIndex (\<lambda>d. id_d d = did) (items state)")
  case None
  with assms show ?thesis by (simp add: updateElement_items_def)
next
  case (Some i)
  from findIndex_Some[OF Some] have i: "i < length (items state)" by simp
  then have "items state ! i \<in> set (items state)" by simp
  with assms have d: "distinct (map id_el (elements (items state ! i)))"
    by (simp add: ids_distinct_def)
  let ?els = "case findIndex (\<lambda>el. id_el el = id_el element) (elements (items state ! i)) of
              Some elementIndex \<Rightarrow> (elements (items state ! i))[elementIndex := element]
            | None \<Rightarrow> elements (items state ! i) @ [element]"
  let ?d = "(items state ! i)\<lparr> elements := ?els, updatedAt := now \<rparr>"
  have its: "items (updateElement_items state did element now) = (items state)[i := ?d]"
    using Some by (simp add: updateElement_items_def Let_def)
  show ?thesis
    unfolding ids_distinct_def
  proof
    fix d assume "d \<in> set (items (updateElement_items state did element now))"
    then have "d \<in> insert ?d (set (items state))"
      unfolding its using set_update_subset_insert[of "items state" i ?d] by blast
    then consider "d = ?d" | "d \<in> set (items state)" by blast
    then show "distinct (map id_el (elements d))"
    proof cases
      case 1
      then have "elements d = ?els" by simp
      then show ?thesis using upsert_keeps_distinct[OF d, of element] by simp
    next
      case 2
      with assms show ?thesis by (simp add: ids_distinct_def)
    qed
  qed
qed

lemma find_update_first:
  "findIndex P xs = Some j \<Longrightarrow> P y \<Longrightarrow> find P (xs[j := y]) = Some y"
proof (induction xs arbitrary: j)
  case Nil
  then show ?case by simp
next
  case (Cons x xs)
  then show ?case by (cases "P x") auto
qed

lemma find_append_new:
  "findIndex P xs = None \<Longrightarrow> P y \<Longrightarrow> find P (xs @ [y]) = Some y"
  by (induction xs) (auto split: if_splits)

lemma updateElement_items_writes_element:
  assumes "findIndex (\<lambda>d. id_d d = did) (items state) = Some i"
  shows "find (\<lambda>el. id_el el = id_el element)
           (elements (items (updateElement_items state did element now) ! i)) = Some element"
proof -
  from findIndex_Some[OF assms] have i: "i < length (items state)" by simp
  show ?thesis
    using assms i
    by (simp add: updateElement_items_def Let_def find_update_first find_append_new
        split: option.splits)
qed

section \<open>Unknown element ids\<close>

lemma after_delete_b:
  "design (applyRemote (root_of state_ab) delete_b) = deleteElement state_ab ''b''"
  by (simp add: applyRemote_design delete_b_def root_of_def design_step_delete)

lemma seed_ids: "map id_el (elements (seedDesign now)) = [''headline'', ''cta'', ''accent-circle'']"
  by (simp add: seedDesign_def)

text \<open>
  C6 (amended). An update of an element id that is neither a key of the element map nor
  the name of a member of \<^verbatim>\<open>Object.prototype\<close> raises no error and leaves the whole
  state as it was; a delete of an id that is neither in the element map nor in the
  layer order raises no error and leaves the element map and the layer order as they
  were. Neither reports a result.
\<close>

theorem unknown_element_is_ignored:
  "(elementsById state eid = None \<longrightarrow> eid \<notin> set object_prototype_keys \<longrightarrow>
        updateElement state eid patch = Inr state
        \<and> design_step state (UpdateElement eid patch) = state)
   \<and> design_reduce state (DeleteElement eid) = Inr (deleteElement state eid)
   \<and> (elementsById state eid = None \<longrightarrow> eid \<notin> set (layerOrder state) \<longrightarrow>
        elementsById (deleteElement state eid) = elementsById state
        \<and> layerOrder (deleteElement state eid) = layerOrder state)"
proof (intro conjI impI)
  assume "elementsById state eid = None" "eid \<notin> set object_prototype_keys"
  then show "updateElement state eid patch = Inr state"
    by (simp add: updateElement_def read_def)
next
  assume "elementsById state eid = None" "eid \<notin> set object_prototype_keys"
  then show "design_step state (UpdateElement eid patch) = state"
    by (rule design_step_update_undefined)
next
  show "design_reduce state (DeleteElement eid) = Inr (deleteElement state eid)" by simp
next
  assume n: "elementsById state eid = None"
  show "elementsById (deleteElement state eid) = elementsById state"
    using n by (auto simp: deleteElement_def)
next
  assume "eid \<notin> set (layerOrder state)"
  then have "filter (\<lambda>e. e \<noteq> eid) (layerOrder state) = layerOrder state"
    by (auto simp: filter_id_conv)
  then show "layerOrder (deleteElement state eid) = layerOrder state"
    by (simp add: deleteElement_def)
qed

text \<open>
  The scenario: elements \<^verbatim>\<open>a\<close> and \<^verbatim>\<open>b\<close> in that order, an inbound delete of \<^verbatim>\<open>b\<close>, then
  the stale local update of \<^verbatim>\<open>b\<close> to \<open>x = 10\<close>: the update changes nothing and the order
  is \<^verbatim>\<open>[a]\<close>.
\<close>

theorem unknown_element_is_ignored_witness:
  "elementsById (design (applyRemote (root_of state_ab) delete_b)) ''b'' = None
   \<and> ''b'' \<notin> set object_prototype_keys
   \<and> ''b'' \<notin> set (layerOrder (design (applyRemote (root_of state_ab) delete_b)))
   \<and> updateElement (design (applyRemote (root_of state_ab) delete_b)) ''b'' (patch_x 10)
       = Inr (design (applyRemote (root_of state_ab) delete_b))
   \<and> layerOrder (design_step (design (applyRemote (root_of state_ab) delete_b))
        (UpdateElement ''b'' (patch_x 10))) = [''a'']
   \<and> layerOrder (deleteElement (design (applyRemote (root_of state_ab) delete_b)) ''b'') = [''a'']"
proof -
  let ?s = "design (applyRemote (root_of state_ab) delete_b)"
  have n: "elementsById ?s ''b'' = None" by (simp add: after_delete_b deleteElement_def)
  have l: "layerOrder ?s = [''a'']" by (simp add: after_delete_b deleteElement_def state_ab_order)
  have o: "''b'' \<notin> set (layerOrder ?s)" by (simp add: l)
  have k: "''b'' \<notin> set object_prototype_keys" by (simp add: object_prototype_keys_def)
  from unknown_element_is_ignored[of ?s "''b''" "patch_x 10"] n o k
  have "updateElement ?s ''b'' (patch_x 10) = Inr ?s"
    and "design_step ?s (UpdateElement ''b'' (patch_x 10)) = ?s"
    and "layerOrder (deleteElement ?s ''b'') = layerOrder ?s" by blast+
  with n o l k show ?thesis by simp
qed

text \<open>
  C6 as stated fails. \<^verbatim>\<open>deleteElement\<close> of an unknown id marks a clean design dirty, so
  the state is not unchanged. \<^verbatim>\<open>updateElement\<close> of an id that is not in the element map
  but names a member of \<^verbatim>\<open>Object.prototype\<close> stores the patch under that id, and under
  \<^verbatim>\<open>__proto__\<close> it throws. And \<^verbatim>\<open>updateElement\<close> of the design list slice appends an
  element whose id the design does not have.
\<close>

theorem unknown_element_changes_state_counterexample:
  "elementsById initialState_design ''ghost'' = None
   \<and> ''ghost'' \<notin> set (layerOrder initialState_design)
   \<and> \<not> dirty initialState_design
   \<and> dirty (deleteElement initialState_design ''ghost'')
   \<and> deleteElement initialState_design ''ghost'' \<noteq> initialState_design
   \<and> elementsById initialState_design ''constructor'' = None
   \<and> elementsById (design_step initialState_design (UpdateElement ''constructor'' (patch_x 10)))
        ''constructor'' = Some (Stray (patch_x 10))
   \<and> updateElement initialState_design ''__proto__'' (patch_x 10) = Inl SetPrototypeOfDraft
   \<and> ''ghost'' \<notin> set (map id_el (elements (seedDesign ''t0'')))
   \<and> map (map id_el \<circ> elements)
        (items (updateElement_items (initialState_designs ''t0'') ''seed-design''
           (rect_at ''ghost'' 0 0) ''t1''))
       = [[''headline'', ''cta'', ''accent-circle'', ''ghost'']]"
proof -
  have d: "\<not> dirty initialState_design" by (simp add: initialState_design_def)
  have e: "dirty (deleteElement initialState_design ''ghost'')" by (simp add: deleteElement_def)
  from d e have ne: "deleteElement initialState_design ''ghost'' \<noteq> initialState_design" by auto
  have u: "map (map id_el \<circ> elements)
        (items (updateElement_items (initialState_designs ''t0'') ''seed-design''
           (rect_at ''ghost'' 0 0) ''t1''))
       = [[''headline'', ''cta'', ''accent-circle'', ''ghost'']]"
    by (simp add: updateElement_items_def initialState_designs_def seedDesign_def)
  have i: "elementsById initialState_design ''ghost'' = None"
     "''ghost'' \<notin> set (layerOrder initialState_design)"
    by (simp_all add: initialState_design_def)
  have s: "''ghost'' \<notin> set (map id_el (elements (seedDesign ''t0'')))"
    by (simp add: seed_ids)
  have c: "elementsById initialState_design ''constructor'' = None"
    by (simp add: initialState_design_def)
  have w: "elementsById (design_step initialState_design (UpdateElement ''constructor'' (patch_x 10)))
        ''constructor'' = Some (Stray (patch_x 10))"
    using design_step_update_inherited[OF c] constructor_inherited by simp
  have p: "updateElement initialState_design ''__proto__'' (patch_x 10) = Inl SetPrototypeOfDraft"
    by (simp add: updateElement_def read_def initialState_design_def object_prototype_keys_def
        assign_proto)
  from d e ne u i s c w p show ?thesis by blast
qed

section \<open>Unknown design ids\<close>

text \<open>
  C10. \<^verbatim>\<open>updateElement\<close> of the design list slice with a design id that no design of
  the store has leaves the whole state unchanged: every design, its elements and its
  timestamps.
\<close>

theorem updateElement_items_unknown_design_is_noop:
  "did \<notin> id_d ` set (items state) \<Longrightarrow> updateElement_items state did element now = state"
proof -
  assume "did \<notin> id_d ` set (items state)"
  then have "findIndex (\<lambda>d. id_d d = did) (items state) = None"
    by (auto simp: findIndex_None_iff)
  then show ?thesis by (simp add: updateElement_items_def)
qed

text \<open>The theorem at the initial state and a design id other than the seed design's.\<close>

theorem updateElement_items_unknown_design_witness:
  "''nope'' \<notin> id_d ` set (items (initialState_designs ''t0''))
   \<and> updateElement_items (initialState_designs ''t0'') ''nope'' (rect_at ''cta'' 0 0) ''t1''
       = initialState_designs ''t0''"
proof -
  have n: "''nope'' \<notin> id_d ` set (items (initialState_designs ''t0''))"
    by (simp add: initialState_designs_def seedDesign_def)
  from updateElement_items_unknown_design_is_noop[OF n] n show ?thesis by simp
qed

section \<open>Leaving collaborators\<close>

text \<open>
  C9. Processing a leave for a collaborator id, which the listener of
  \<^verbatim>\<open>presence:leave\<close> does by \<^verbatim>\<open>removeCollaborator\<close>, yields a collaborator map that no
  longer holds that id; the entry of every other collaborator and the connection flag
  are as before.
\<close>

theorem removeCollaborator_purges_only_that_id:
  "cid \<notin> dom (collaborators (removeCollaborator state cid))
   \<and> (other \<noteq> cid \<longrightarrow>
        collaborators (removeCollaborator state cid) other = collaborators state other)
   \<and> isConnected (removeCollaborator state cid) = isConnected state
   \<and> presence (handleLeave store cid) = removeCollaborator (presence store) cid"
  by (simp add: removeCollaborator_def handleLeave_def dispatch_def rootReducer_def settle_def)

text \<open>The theorem at a session of Ann and Bob that Ann leaves.\<close>

theorem removeCollaborator_witness:
  "''ann'' \<in> dom (collaborators presence_ann_bob)
   \<and> ''ann'' \<notin> dom (collaborators (removeCollaborator presence_ann_bob ''ann''))
   \<and> ''bob'' \<noteq> ''ann''
   \<and> map_option name_c (collaborators (removeCollaborator presence_ann_bob ''ann'') ''bob'')
       = Some ''Bob''
   \<and> isConnected (removeCollaborator presence_ann_bob ''ann'')
   \<and> presence (handleLeave (root_of state_ab) ''ann'')
       = removeCollaborator (presence (root_of state_ab)) ''ann''"
proof -
  have b: "''bob'' \<noteq> ''ann''" by simp
  have ab: "presence_ann_bob =
      initialState_presence
        \<lparr> isConnected := True,
          collaborators :=
            [''ann'' \<mapsto> \<lparr> id_c = ''ann'', name_c = ''Ann'', color = ''#f472b6'',
               cursor = Some (10, 20), lastActiveAt = ''t0'' \<rparr>,
             ''bob'' \<mapsto> \<lparr> id_c = ''bob'', name_c = ''Bob'', color = ''#60a5fa'', cursor = None,
               lastActiveAt = ''t1'' \<rparr>] \<rparr>"
    by (simp add: presence_ann_bob_def dispatch_def rootReducer_def settle_def root_of_def
        upsertCollaborator_def assign_def setConnectionState_def initialState_presence_def)
  have a: "''ann'' \<in> dom (collaborators presence_ann_bob)"
    by (simp add: ab)
  have k: "map_option name_c (collaborators presence_ann_bob ''bob'') = Some ''Bob''"
    by (simp add: ab)
  have c: "isConnected presence_ann_bob"
    by (simp add: ab)
  have h: "presence (handleLeave (root_of state_ab) ''ann'')
       = removeCollaborator (presence (root_of state_ab)) ''ann''"
    by (simp add: handleLeave_def dispatch_def rootReducer_def settle_def)
  from removeCollaborator_purges_only_that_id
    [of "''ann''" presence_ann_bob "''bob''" "root_of state_ab"] a b k c h
  show ?thesis by simp
qed

end
